theory Spec2Isabelle
  imports Main "HOL-Library.AList"
begin

section \<open>JavaScript values\<close>

text \<open>
  The payload of a socket event is an arbitrary value sent by the client. The model has
  \<open>undefined\<close>, \<open>null\<close>, booleans, strings and objects (a list of fields, each key once);
  numbers (IEEE doubles) and arrays are left out. An event sent without an argument
  hands \<open>undefined\<close> to the handler.
\<close>

datatype jsval =
    JUndefined
  | JNull
  | JBool bool
  | JStr string
  | JObj "(string \<times> jsval) list"

text \<open>Truthiness, as \<open>||\<close> and \<open>if\<close> test it.\<close>

fun truthy :: "jsval \<Rightarrow> bool" where
  "truthy JUndefined = False"
| "truthy JNull = False"
| "truthy (JBool b) = b"
| "truthy (JStr s) = (s \<noteq> [])"
| "truthy (JObj fs) = True"

fun nullish :: "jsval \<Rightarrow> bool" where
  "nullish JUndefined = True"
| "nullish JNull = True"
| "nullish v = False"

text \<open>\<open>a ?? b\<close> and \<open>a || b\<close>.\<close>

definition coalesce :: "jsval \<Rightarrow> jsval \<Rightarrow> jsval" where
  "coalesce a b = (if nullish a then b else a)"

definition or_else :: "jsval \<Rightarrow> jsval \<Rightarrow> jsval" where
  "or_else a b = (if truthy a then a else b)"

text \<open>
  \<open>v?.k\<close> for the keys the server reads (\<open>username\<close>, \<open>message\<close>, \<open>text\<close>, \<open>room\<close>,
  \<open>to\<close>): \<open>undefined\<close> on \<open>undefined\<close> and \<open>null\<close> (the optional chain), the field of an
  object, and \<open>undefined\<close> on a boolean or a string, which have no such property.
\<close>

fun opt_get :: "jsval \<Rightarrow> string \<Rightarrow> jsval" where
  "opt_get (JObj fs) k = (case map_of fs k of None \<Rightarrow> JUndefined | Some v \<Rightarrow> v)"
| "opt_get v k = JUndefined"

fun is_string :: "jsval \<Rightarrow> bool" where
  "is_string (JStr s) = True"
| "is_string v = False"

section \<open>The message model (models/Message.js)\<close>

type_synonym socket_id = string

text \<open>
  A stored document. \<open>None\<close> is \<open>null\<close>. \<open>m_id\<close> is the \<open>_id\<close> that the library
  generates, \<open>m_createdAt\<close> the value of \<open>Date.now\<close> in milliseconds.
\<close>

record message_doc =
  m_id :: nat
  m_room :: "string option"
  m_text :: "string option"
  m_sender :: "string option"
  m_senderId :: "string option"
  m_to :: "string option"
  m_isPrivate :: bool
  m_createdAt :: int

text \<open>The object literal handed to \<open>Message.create\<close>.\<close>

record draft =
  d_room :: jsval
  d_text :: jsval
  d_sender :: jsval
  d_senderId :: jsval
  d_to :: jsval
  d_isPrivate :: bool

datatype create_error = ValidationError | StorageUnavailable

text \<open>
  What the environment contributes to one \<open>Message.create\<close>: the generated \<open>_id\<close>, the
  clock, and whether the database takes the insert.
\<close>

record db_env =
  fresh_id :: nat
  now :: int
  db_up :: bool

text \<open>
  The cast of a value to the schema type \<open>String\<close>, as the library does it: \<open>null\<close> stays,
  a string stays, a boolean is printed, an object is replaced by its \<open>_id\<close> when that is a
  non-empty string and is a cast error otherwise.
\<close>

fun castString :: "jsval \<Rightarrow> create_error + string option" where
  "castString JUndefined = Inr None"
| "castString JNull = Inr None"
| "castString (JStr s) = Inr (Some s)"
| "castString (JBool b) = Inr (Some (if b then ''true'' else ''false''))"
| "castString (JObj fs) =
     (case map_of fs ''_id'' of
        Some (JStr s) \<Rightarrow> if s \<noteq> [] then Inr (Some s) else Inl ValidationError
      | _ \<Rightarrow> Inl ValidationError)"

text \<open>A path of type \<open>String\<close> with a default: the default replaces \<open>undefined\<close> only.\<close>

definition string_path :: "string option \<Rightarrow> jsval \<Rightarrow> create_error + string option" where
  "string_path dflt v = (if v = JUndefined then Inr dflt else castString v)"

text \<open>
  \<open>required: true\<close> on a \<open>String\<close> path: the value passes when it is a string of positive
  length; \<open>null\<close>, \<open>undefined\<close> and the empty string fail.
\<close>

fun checkRequired :: "string option \<Rightarrow> bool" where
  "checkRequired None = False"
| "checkRequired (Some s) = (s \<noteq> [])"

text \<open>
  \<open>MessageSchema\<close>, path by path: \<open>room\<close> (default \<open>'global'\<close>), \<open>text\<close> (required),
  \<open>sender\<close> (default \<open>'Anonymous'\<close>), \<open>senderId\<close>, \<open>to\<close> (default \<open>null\<close>), \<open>isPrivate\<close>,
  \<open>createdAt\<close> (default \<open>Date.now\<close>). The result is the document, or the validation error
  that a failed cast or a failed \<open>required\<close> raises.
\<close>

definition MessageSchema :: "db_env \<Rightarrow> draft \<Rightarrow> create_error + message_doc" where
  "MessageSchema env d =
     (case string_path (Some ''global'') (d_room d) of Inl e \<Rightarrow> Inl e | Inr room \<Rightarrow>
     (case string_path None (d_text d) of Inl e \<Rightarrow> Inl e | Inr txt \<Rightarrow>
     (case string_path (Some ''Anonymous'') (d_sender d) of Inl e \<Rightarrow> Inl e | Inr sender \<Rightarrow>
     (case string_path None (d_senderId d) of Inl e \<Rightarrow> Inl e | Inr senderId \<Rightarrow>
     (case string_path None (d_to d) of Inl e \<Rightarrow> Inl e | Inr to_v \<Rightarrow>
       (if \<not> checkRequired txt then Inl ValidationError
        else Inr \<lparr> m_id = fresh_id env, m_room = room, m_text = txt, m_sender = sender,
                   m_senderId = senderId, m_to = to_v, m_isPrivate = d_isPrivate d,
                   m_createdAt = now env \<rparr>))))))"

text \<open>
  \<open>Message.create\<close> on the collection \<open>msgs\<close> (oldest insert first): the document is
  validated, then inserted. A rejected create leaves the collection as it was.
\<close>

definition Message_create ::
  "db_env \<Rightarrow> draft \<Rightarrow> message_doc list \<Rightarrow> create_error + (message_doc \<times> message_doc list)" where
  "Message_create env d msgs =
     (case MessageSchema env d of
        Inl e \<Rightarrow> Inl e
      | Inr doc \<Rightarrow> if db_up env then Inr (doc, msgs @ [doc]) else Inl StorageUnavailable)"

section \<open>The server (server.js)\<close>

text \<open>An entry of \<open>users\<close>: \<open>{ username, id }\<close>.\<close>

record user =
  username :: jsval
  uid :: socket_id

text \<open>The payloads of \<open>receive_message\<close> and \<open>private_message\<close>.\<close>

record public_payload =
  p_id :: nat
  p_sender :: "string option"
  p_senderId :: "string option"
  p_message :: "string option"
  p_room :: "string option"
  p_isPrivate :: bool
  p_timestamp :: int

record private_payload =
  q_id :: nat
  q_sender :: "string option"
  q_senderId :: "string option"
  q_to :: "string option"
  q_message :: "string option"
  q_isPrivate :: bool
  q_timestamp :: int

datatype out_event =
    User_list "user list"
  | User_joined jsval socket_id
  | Receive_message public_payload
  | Typing_users "jsval list"
  | Private_message private_payload
  | User_left jsval socket_id

datatype log_entry =
    Log_joined jsval
  | Log_left jsval
  | Log_public_error create_error
  | Log_private_error create_error
  | Log_fetch_error

text \<open>
  What a handler does, in the order it does it: \<open>io.emit\<close>, \<open>socket.to(room).emit\<close> (from
  the socket named first), \<open>socket.emit\<close>, a resolved \<open>Message.create\<close>, a line on the
  console, and a promise rejected with nobody to catch it.
\<close>

datatype effect =
    IoEmit out_event
  | SocketTo socket_id jsval out_event
  | SocketEmit socket_id out_event
  | Created message_doc
  | Console log_entry
  | UnhandledRejection

text \<open>
  The state: the two in-memory objects \<open>users\<close> and \<open>typingUsers\<close>, and the message
  collection. An object keeps its keys in insertion order, an assignment to a key that
  exists keeps the key's place, and \<open>Object.values\<close> lists the values in that order.
\<close>

record server_state =
  users :: "(socket_id \<times> user) list"
  typingUsers :: "(socket_id \<times> jsval) list"
  messages :: "message_doc list"

definition init_state :: server_state where
  "init_state = \<lparr> users = [], typingUsers = [], messages = [] \<rparr>"

definition Object_values :: "(socket_id \<times> 'v) list \<Rightarrow> 'v list" where
  "Object_values obj = map snd obj"

text \<open>\<open>users[socket.id]?.username\<close>\<close>

definition user_name :: "server_state \<Rightarrow> socket_id \<Rightarrow> jsval" where
  "user_name s sid = (case map_of (users s) sid of None \<Rightarrow> JUndefined | Some u \<Rightarrow> username u)"

definition user_join :: "server_state \<Rightarrow> socket_id \<Rightarrow> jsval \<Rightarrow> server_state \<times> effect list" where
  "user_join s sid payload =
     (let name = (if is_string payload then payload else opt_get payload ''username'');
          s' = s\<lparr> users := AList.update sid \<lparr> username = name, uid = sid \<rparr> (users s) \<rparr>
      in (s', [IoEmit (User_list (Object_values (users s'))),
               IoEmit (User_joined name sid),
               Console (Log_joined name)]))"

definition public_draft :: "server_state \<Rightarrow> socket_id \<Rightarrow> jsval \<Rightarrow> draft" where
  "public_draft s sid messageData =
     (let txt = coalesce (coalesce (opt_get messageData ''message'') (opt_get messageData ''text''))
                  (JStr '''');
          room = coalesce (opt_get messageData ''room'') (JStr ''global'')
      in \<lparr> d_room = room, d_text = txt,
           d_sender = or_else (user_name s sid) (JStr ''Anonymous''),
           d_senderId = JStr sid, d_to = JNull, d_isPrivate = False \<rparr>)"

definition public_projection :: "message_doc \<Rightarrow> public_payload" where
  "public_projection saved =
     \<lparr> p_id = m_id saved, p_sender = m_sender saved, p_senderId = m_senderId saved,
       p_message = m_text saved, p_room = m_room saved, p_isPrivate = m_isPrivate saved,
       p_timestamp = m_createdAt saved \<rparr>"

definition send_message ::
  "server_state \<Rightarrow> socket_id \<Rightarrow> jsval \<Rightarrow> db_env \<Rightarrow> server_state \<times> effect list" where
  "send_message s sid messageData env =
     (case Message_create env (public_draft s sid messageData) (messages s) of
        Inl err \<Rightarrow> (s, [Console (Log_public_error err)])
      | Inr (saved, msgs) \<Rightarrow>
          (s\<lparr> messages := msgs \<rparr>,
           [Created saved, IoEmit (Receive_message (public_projection saved))]))"

definition typing :: "server_state \<Rightarrow> socket_id \<Rightarrow> jsval \<Rightarrow> server_state \<times> effect list" where
  "typing s sid isTyping =
     (case map_of (users s) sid of
        None \<Rightarrow> (s, [])
      | Some u \<Rightarrow>
          (let s' = (if truthy isTyping
                     then s\<lparr> typingUsers := AList.update sid (username u) (typingUsers s) \<rparr>
                     else s\<lparr> typingUsers := AList.delete sid (typingUsers s) \<rparr>)
           in (s', [IoEmit (Typing_users (Object_values (typingUsers s')))])))"

definition private_draft :: "server_state \<Rightarrow> socket_id \<Rightarrow> jsval \<Rightarrow> draft" where
  "private_draft s sid payload =
     \<lparr> d_room = JNull, d_text = opt_get payload ''message'',
       d_sender = or_else (user_name s sid) (JStr ''Anonymous''),
       d_senderId = JStr sid, d_to = opt_get payload ''to'', d_isPrivate = True \<rparr>"

definition private_projection :: "message_doc \<Rightarrow> private_payload" where
  "private_projection saved =
     \<lparr> q_id = m_id saved, q_sender = m_sender saved, q_senderId = m_senderId saved,
       q_to = m_to saved, q_message = m_text saved, q_isPrivate = m_isPrivate saved,
       q_timestamp = m_createdAt saved \<rparr>"

text \<open>
  The parameter pattern \<open>{ to, message }\<close> throws on \<open>undefined\<close> and \<open>null\<close>, before the
  \<open>try\<close> block is entered: the promise of the handler is rejected and nobody catches it.
\<close>

definition private_message ::
  "server_state \<Rightarrow> socket_id \<Rightarrow> jsval \<Rightarrow> db_env \<Rightarrow> server_state \<times> effect list" where
  "private_message s sid payload env =
     (if nullish payload then (s, [UnhandledRejection])
      else case Message_create env (private_draft s sid payload) (messages s) of
        Inl err \<Rightarrow> (s, [Console (Log_private_error err)])
      | Inr (saved, msgs) \<Rightarrow>
          (s\<lparr> messages := msgs \<rparr>,
           [Created saved,
            SocketTo sid (opt_get payload ''to'') (Private_message (private_projection saved)),
            SocketEmit sid (Private_message (private_projection saved))]))"

definition disconnect :: "server_state \<Rightarrow> socket_id \<Rightarrow> server_state \<times> effect list" where
  "disconnect s sid =
     (let left = (case map_of (users s) sid of
                    None \<Rightarrow> []
                  | Some u \<Rightarrow> [IoEmit (User_left (username u) sid), Console (Log_left (username u))]);
          s' = s\<lparr> users := AList.delete sid (users s),
                  typingUsers := AList.delete sid (typingUsers s) \<rparr>
      in (s', left @ [IoEmit (User_list (Object_values (users s'))),
                      IoEmit (Typing_users (Object_values (typingUsers s')))]))"

subsection \<open>Who receives an emit\<close>

text \<open>
  \<open>conns\<close> are the connected sockets. \<open>io.emit\<close> reaches all of them. Every socket is in
  the room named by its own id and the server joins no other room, so
  \<open>socket.to(room).emit\<close> reaches the socket whose id is \<open>room\<close>, unless that is the
  emitting socket itself. \<open>socket.emit\<close> reaches the socket.
\<close>

fun recipients :: "socket_id list \<Rightarrow> effect \<Rightarrow> socket_id list" where
  "recipients conns (IoEmit e) = conns"
| "recipients conns (SocketTo sid room e) = filter (\<lambda>c. JStr c = room \<and> c \<noteq> sid) conns"
| "recipients conns (SocketEmit sid e) = filter (\<lambda>c. c = sid) conns"
| "recipients conns eff = []"

definition delivered :: "socket_id list \<Rightarrow> effect list \<Rightarrow> socket_id list" where
  "delivered conns effs = concat (map (recipients conns) effs)"

subsection \<open>GET /api/messages and GET /api/users\<close>

datatype http_response = Json "message_doc list" | Status500

text \<open>
  \<open>.limit(n)\<close> on the cursor: \<open>0\<close> is no limit, and the driver sends a negative \<open>n\<close> as
  its absolute value.
\<close>

definition cursor_limit :: "int \<Rightarrow> 'a list \<Rightarrow> 'a list" where
  "cursor_limit n xs = (if n = 0 then xs else take (nat \<bar>n\<bar>) xs)"

text \<open>\<open>.sort({ createdAt: -1 })\<close>: newest first; documents of equal \<open>createdAt\<close> keep their order.\<close>

definition sort_newest_first :: "message_doc list \<Rightarrow> message_doc list" where
  "sort_newest_first docs = sort_key (\<lambda>m. - m_createdAt m) docs"

text \<open>
  \<open>parsed\<close> is \<open>parseInt(req.query.limit)\<close>, \<open>None\<close> for \<open>NaN\<close> (the parameter is absent
  or does not start with an integer); \<open>room_param\<close> is \<open>req.query.room\<close>; \<open>find_ok\<close> says
  whether the database answers the query.
\<close>

definition effective_limit :: "int option \<Rightarrow> int" where
  "effective_limit parsed =
     min (case parsed of None \<Rightarrow> 50 | Some n \<Rightarrow> if n = 0 then 50 else n) 200"

definition effective_room :: "string option \<Rightarrow> string" where
  "effective_room room_param =
     (case room_param of None \<Rightarrow> ''global'' | Some r \<Rightarrow> if r = [] then ''global'' else r)"

definition api_messages ::
  "server_state \<Rightarrow> int option \<Rightarrow> string option \<Rightarrow> bool \<Rightarrow> http_response \<times> effect list" where
  "api_messages s parsed room_param find_ok =
     (let limit = effective_limit parsed;
          room = effective_room room_param;
          matching = (if room \<noteq> [] then filter (\<lambda>m. m_room m = Some room) (messages s)
                      else messages s)
      in if find_ok
         then (Json (rev (cursor_limit limit (sort_newest_first matching))), [])
         else (Status500, [Console Log_fetch_error]))"

definition api_users :: "server_state \<Rightarrow> user list" where
  "api_users s = Object_values (users s)"

subsection \<open>Events and reachable states\<close>

datatype event =
    Ev_user_join socket_id jsval
  | Ev_send_message socket_id jsval db_env
  | Ev_typing socket_id jsval
  | Ev_private_message socket_id jsval db_env
  | Ev_disconnect socket_id

fun handle :: "server_state \<Rightarrow> event \<Rightarrow> server_state \<times> effect list" where
  "handle s (Ev_user_join sid payload) = user_join s sid payload"
| "handle s (Ev_send_message sid messageData env) = send_message s sid messageData env"
| "handle s (Ev_typing sid isTyping) = typing s sid isTyping"
| "handle s (Ev_private_message sid payload env) = private_message s sid payload env"
| "handle s (Ev_disconnect sid) = disconnect s sid"

fun run :: "server_state \<Rightarrow> event list \<Rightarrow> server_state" where
  "run s [] = s"
| "run s (e # es) = run (fst (handle s e)) es"

subsection \<open>Predicates on states\<close>

text \<open>Every socket with a typing mark has an entry in \<open>users\<close>.\<close>

definition typing_inv :: "server_state \<Rightarrow> bool" where
  "typing_inv s = (set (map fst (typingUsers s)) \<subseteq> set (map fst (users s)))"

text \<open>An object has each key once, and an entry of \<open>users\<close> carries its own key as \<open>id\<close>.\<close>

definition users_wf :: "(socket_id \<times> user) list \<Rightarrow> bool" where
  "users_wf us = (distinct (map fst us) \<and> list_all (\<lambda>(k, u). uid u = k) us)"

text \<open>The \<open>user_left\<close> broadcast.\<close>

fun is_user_left :: "effect \<Rightarrow> bool" where
  "is_user_left (IoEmit (User_left n i)) = True"
| "is_user_left e = False"

subsection \<open>Sample inputs\<close>

definition env_up :: db_env where
  "env_up = \<lparr> fresh_id = 1, now = 1000, db_up = True \<rparr>"

definition env_down :: db_env where
  "env_down = \<lparr> fresh_id = 1, now = 1000, db_up = False \<rparr>"

definition alice_joined :: server_state where
  "alice_joined = fst (user_join init_state ''a'' (JStr ''Alice''))"

definition alice_typing :: server_state where
  "alice_typing = fst (typing alice_joined ''a'' (JBool True))"

definition nameless_joined :: server_state where
  "nameless_joined = fst (user_join init_state ''a'' (JStr ''''))"

definition hi_payload :: jsval where
  "hi_payload = JObj [(''message'', JStr ''hi'')]"

definition dm_payload :: jsval where
  "dm_payload = JObj [(''to'', JStr ''b''), (''message'', JStr ''psst'')]"

definition dm_doc :: message_doc where
  "dm_doc = \<lparr> m_id = 1, m_room = None, m_text = Some ''psst'', m_sender = Some ''Anonymous'',
              m_senderId = Some ''a'', m_to = Some ''b'', m_isPrivate = True, m_createdAt = 1000 \<rparr>"

definition alice_hi_doc :: message_doc where
  "alice_hi_doc = \<lparr> m_id = 1, m_room = Some ''global'', m_text = Some ''hi'',
                    m_sender = Some ''Alice'', m_senderId = Some ''a'', m_to = None,
                    m_isPrivate = False, m_createdAt = 1000 \<rparr>"

definition empty_room_payload :: jsval where
  "empty_room_payload = JObj [(''message'', JStr ''hi''), (''room'', JStr '''')]"

definition empty_room_doc :: message_doc where
  "empty_room_doc = \<lparr> m_id = 1, m_room = Some '''', m_text = Some ''hi'',
                      m_sender = Some ''Anonymous'', m_senderId = Some ''a'', m_to = None,
                      m_isPrivate = False, m_createdAt = 1000 \<rparr>"

definition alice_said_hi :: server_state where
  "alice_said_hi = fst (send_message alice_joined ''a'' hi_payload env_up)"

definition env_later :: db_env where
  "env_later = \<lparr> fresh_id = 2, now = 2000, db_up = True \<rparr>"

definition alice_hi_doc2 :: message_doc where
  "alice_hi_doc2 = \<lparr> m_id = 2, m_room = Some ''global'', m_text = Some ''hi'',
                     m_sender = Some ''Alice'', m_senderId = Some ''a'', m_to = None,
                     m_isPrivate = False, m_createdAt = 2000 \<rparr>"

definition alice_said_hi_twice :: server_state where
  "alice_said_hi_twice = fst (send_message alice_said_hi ''a'' hi_payload env_later)"

definition env_same :: db_env where
  "env_same = \<lparr> fresh_id = 2, now = 1000, db_up = True \<rparr>"

definition alice_hi_doc_tie :: message_doc where
  "alice_hi_doc_tie = \<lparr> m_id = 2, m_room = Some ''global'', m_text = Some ''hi'',
                     m_sender = Some ''Alice'', m_senderId = Some ''a'', m_to = None,
                     m_isPrivate = False, m_createdAt = 1000 \<rparr>"

definition both_typing :: server_state where
  "both_typing = run init_state
     [Ev_user_join ''a'' (JStr ''Alice''), Ev_user_join ''b'' (JStr ''Bob''),
      Ev_typing ''a'' (JBool True), Ev_typing ''b'' (JBool True)]"

section \<open>Properties\<close>

lemmas eval_defs =
  init_state_def env_up_def env_down_def alice_joined_def alice_typing_def nameless_joined_def
  hi_payload_def dm_payload_def dm_doc_def alice_hi_doc_def empty_room_payload_def
  empty_room_doc_def alice_said_hi_def env_later_def alice_hi_doc2_def alice_said_hi_twice_def
  user_join_def send_message_def typing_def private_message_def disconnect_def
  public_draft_def private_draft_def public_projection_def private_projection_def
  Message_create_def MessageSchema_def string_path_def coalesce_def or_else_def user_name_def
  Object_values_def delivered_def Let_def

subsection \<open>Keys of the registries\<close>

lemma keys_update: "fst ` set (AList.update k v al) = insert k (fst ` set al)"
  by (induction al) auto

lemma keys_delete: "fst ` set (AList.delete k al) = fst ` set al - {k}"
  by (induction al) auto

lemma typing_inv_user_join: "typing_inv s \<Longrightarrow> typing_inv (fst (user_join s sid payload))"
  by (auto simp: typing_inv_def user_join_def Let_def keys_update)

lemma typing_inv_send_message: "typing_inv s \<Longrightarrow> typing_inv (fst (send_message s sid md env))"
  by (auto simp: typing_inv_def send_message_def split: sum.splits prod.splits)

lemma typing_inv_private_message:
  "typing_inv s \<Longrightarrow> typing_inv (fst (private_message s sid p env))"
  by (auto simp: typing_inv_def private_message_def split: sum.splits prod.splits)

lemma typing_inv_typing: "typing_inv s \<Longrightarrow> typing_inv (fst (typing s sid b))"
  by (auto simp: typing_inv_def typing_def Let_def keys_update keys_delete
           split: option.splits dest!: map_of_SomeD) force+

lemma typing_inv_disconnect: "typing_inv s \<Longrightarrow> typing_inv (fst (disconnect s sid))"
  by (auto simp: typing_inv_def disconnect_def Let_def keys_delete)

lemma typing_inv_handle: "typing_inv s \<Longrightarrow> typing_inv (fst (handle s e))"
  by (cases e)
     (simp_all add: typing_inv_user_join typing_inv_send_message typing_inv_private_message
        typing_inv_typing typing_inv_disconnect)

lemma typing_inv_init: "typing_inv init_state"
  by (simp add: typing_inv_def init_state_def)

lemma typing_inv_run: "typing_inv s \<Longrightarrow> typing_inv (run s es)"
  by (induction es arbitrary: s) (simp_all add: typing_inv_handle)

text \<open>
  C10. A typing mark exists only for a registered participant: the empty state has the
  property, every event (join, public send, typing, private send, disconnect) keeps it,
  and so every state the server reaches from the empty one has it.
\<close>

theorem typing_marks_registered:
  "typing_inv init_state
   \<and> (typing_inv s \<longrightarrow> typing_inv (fst (handle s e)))
   \<and> typing_inv (run init_state es)"
  by (simp add: typing_inv_init typing_inv_handle typing_inv_run)

theorem typing_marks_registered_witness:
  "typing_inv alice_joined
   \<and> typingUsers (fst (handle alice_joined (Ev_typing ''a'' (JBool True)))) = [(''a'', JStr ''Alice'')]
   \<and> typing_inv (fst (handle alice_joined (Ev_typing ''a'' (JBool True))))
   \<and> typing_inv (run init_state [Ev_typing ''b'' (JBool True), Ev_user_join ''b'' (JStr ''Bob'')])"
proof -
  have h: "typing_inv alice_joined"
    by (simp add: typing_inv_def alice_joined_def user_join_def init_state_def Let_def)
  have t: "typingUsers (fst (handle alice_joined (Ev_typing ''a'' (JBool True))))
             = [(''a'', JStr ''Alice'')]"
    by (simp add: alice_joined_def user_join_def init_state_def Let_def typing_def)
  from typing_marks_registered
         [of alice_joined "Ev_typing ''a'' (JBool True)"
             "[Ev_typing ''b'' (JBool True), Ev_user_join ''b'' (JStr ''Bob'')]"]
       h t
  show ?thesis by blast
qed

subsection \<open>The presence registry\<close>

lemma not_key_delete: "(k, v) \<notin> set (AList.delete k al)"
  by (induction al) auto

lemma users_wf_update:
  "users_wf us \<Longrightarrow> users_wf (AList.update k \<lparr> username = n, uid = k \<rparr> us)"
  by (induction us) (auto simp: users_wf_def keys_update)

lemma users_wf_delete: "users_wf us \<Longrightarrow> users_wf (AList.delete k us)"
  by (induction us) (auto simp: users_wf_def keys_delete)

lemma users_wf_handle: "users_wf (users s) \<Longrightarrow> users_wf (users (fst (handle s e)))"
  by (cases e)
     (auto simp: user_join_def send_message_def typing_def private_message_def disconnect_def
                 Let_def users_wf_update users_wf_delete
           split: sum.splits option.splits prod.splits)

lemma users_wf_run: "users_wf (users s) \<Longrightarrow> users_wf (users (run s es))"
  by (induction es arbitrary: s) (simp_all add: users_wf_handle)

lemma users_wf_reachable: "users_wf (users (run init_state es))"
  by (rule users_wf_run) (simp add: users_wf_def init_state_def)

lemma one_entry_after_update:
  "users_wf us \<Longrightarrow> uid v = c \<Longrightarrow>
   filter (\<lambda>u. uid u = c) (map snd (AList.update c v us)) = [v]"
proof (induction us)
  case Nil
  then show ?case by simp
next
  case (Cons p ps)
  obtain k u where p: "p = (k, u)" by (cases p)
  show ?case
  proof (cases "k = c")
    case True
    with Cons.prems p have "\<forall>q \<in> set ps. uid (snd q) \<noteq> c"
      by (force simp: users_wf_def list_all_iff)
    then have "filter (\<lambda>u. uid u = c) (map snd ps) = []"
      by (auto simp: filter_empty_conv)
    with True p Cons.prems show ?thesis by simp
  next
    case False
    with Cons.prems p have "uid u \<noteq> c" "users_wf ps"
      by (auto simp: users_wf_def)
    with False p Cons.IH Cons.prems show ?thesis by simp
  qed
qed

text \<open>
  C5. In any state \<open>s0\<close> the server reaches, a socket \<open>c\<close> that joins as \<open>a\<close> and then as
  \<open>b\<close> is looked up as \<open>b\<close>, the user list (\<open>GET /api/users\<close>, the \<open>user_list\<close> payload)
  holds exactly one entry for \<open>c\<close>, and the state is the one a single join as \<open>b\<close> gives.
\<close>

theorem join_overwrites:
  "(let s0 = run init_state es;
        s1 = fst (user_join s0 c (JStr a));
        s2 = fst (user_join s1 c (JStr b))
    in map_of (users s2) c = Some \<lparr> username = JStr b, uid = c \<rparr>
       \<and> filter (\<lambda>u. uid u = c) (api_users s2) = [\<lparr> username = JStr b, uid = c \<rparr>]
       \<and> s2 = fst (user_join s0 c (JStr b)))"
proof -
  have wf: "users_wf (users (run init_state es))" by (rule users_wf_reachable)
  have wf1: "users_wf (AList.update c \<lparr> username = JStr a, uid = c \<rparr> (users (run init_state es)))"
    using wf by (rule users_wf_update)
  show ?thesis
    using one_entry_after_update [OF wf1, of "\<lparr> username = JStr b, uid = c \<rparr>" c]
    by (simp add: Let_def user_join_def api_users_def Object_values_def update_conv')
qed

theorem join_overwrites_witness:
  "map_of (users (fst (user_join (fst (user_join (run init_state [Ev_user_join ''c2'' (JStr ''Carol'')])
       ''c1'' (JStr ''Alice''))) ''c1'' (JStr ''Bob'')))) ''c1''
     = Some \<lparr> username = JStr ''Bob'', uid = ''c1'' \<rparr>
   \<and> api_users (fst (user_join (fst (user_join (run init_state [Ev_user_join ''c2'' (JStr ''Carol'')])
       ''c1'' (JStr ''Alice''))) ''c1'' (JStr ''Bob'')))
     = [\<lparr> username = JStr ''Carol'', uid = ''c2'' \<rparr>, \<lparr> username = JStr ''Bob'', uid = ''c1'' \<rparr>]"
  using join_overwrites [of "[Ev_user_join ''c2'' (JStr ''Carol'')]" "''c1''" "''Alice''" "''Bob''"]
  by (simp add: Let_def user_join_def api_users_def Object_values_def init_state_def)

subsection \<open>Disconnect and typing\<close>

text \<open>
  C6. On \<open>disconnect\<close>, \<open>user_left\<close> is broadcast exactly when the socket had an entry in
  \<open>users\<close>. In both cases the socket is deleted from \<open>users\<close> and from \<open>typingUsers\<close>, and
  the refreshed lists are emitted with \<open>io.emit\<close>, which reaches every connected socket:
  \<open>user_list\<close> carries every entry of \<open>users\<close> but the socket's, and \<open>typing_users\<close> every
  typing name but the socket's, each in the order of the object.
\<close>

theorem disconnect_cleanup:
  "disconnect s sid = (s', effs) \<Longrightarrow>
     ((\<exists>e \<in> set effs. is_user_left e) \<longleftrightarrow> map_of (users s) sid \<noteq> None)
   \<and> (map_of (users s) sid = None \<longrightarrow>
        effs = [IoEmit (User_list (Object_values (users s'))),
                IoEmit (Typing_users (Object_values (typingUsers s')))]
        \<and> delivered conns effs = conns @ conns)
   \<and> (\<forall>u. map_of (users s) sid = Some u \<longrightarrow>
        effs = [IoEmit (User_left (username u) sid), Console (Log_left (username u)),
                IoEmit (User_list (Object_values (users s'))),
                IoEmit (Typing_users (Object_values (typingUsers s')))]
        \<and> delivered conns effs = conns @ conns @ conns)
   \<and> Object_values (users s') = map snd (filter (\<lambda>kv. fst kv \<noteq> sid) (users s))
   \<and> Object_values (typingUsers s') = map snd (filter (\<lambda>kv. fst kv \<noteq> sid) (typingUsers s))
   \<and> users s' = AList.delete sid (users s)
   \<and> typingUsers s' = AList.delete sid (typingUsers s)
   \<and> map_of (users s') sid = None
   \<and> map_of (typingUsers s') sid = None
   \<and> sid \<notin> fst ` set (users s') \<and> sid \<notin> fst ` set (typingUsers s')
   \<and> messages s' = messages s
   \<and> (\<forall>e. recipients conns (IoEmit e) = conns)"
proof -
  assume d: "disconnect s sid = (s', effs)"
  have del: "\<And>al :: (socket_id \<times> 'v) list.
               AList.delete sid al = filter (\<lambda>kv. fst kv \<noteq> sid) al"
    by (auto simp: AList.delete_eq intro: filter_cong)
  have ov: "Object_values (users s') = map snd (filter (\<lambda>kv. fst kv \<noteq> sid) (users s))
          \<and> Object_values (typingUsers s') = map snd (filter (\<lambda>kv. fst kv \<noteq> sid) (typingUsers s))"
    using d by (auto simp: disconnect_def Let_def Object_values_def del)
  have rest: "((\<exists>e \<in> set effs. is_user_left e) \<longleftrightarrow> map_of (users s) sid \<noteq> None)
   \<and> (map_of (users s) sid = None \<longrightarrow>
        effs = [IoEmit (User_list (Object_values (users s'))),
                IoEmit (Typing_users (Object_values (typingUsers s')))]
        \<and> delivered conns effs = conns @ conns)
   \<and> (\<forall>u. map_of (users s) sid = Some u \<longrightarrow>
        effs = [IoEmit (User_left (username u) sid), Console (Log_left (username u)),
                IoEmit (User_list (Object_values (users s'))),
                IoEmit (Typing_users (Object_values (typingUsers s')))]
        \<and> delivered conns effs = conns @ conns @ conns)
   \<and> users s' = AList.delete sid (users s)
   \<and> typingUsers s' = AList.delete sid (typingUsers s)
   \<and> map_of (users s') sid = None
   \<and> map_of (typingUsers s') sid = None
   \<and> sid \<notin> fst ` set (users s') \<and> sid \<notin> fst ` set (typingUsers s')
   \<and> messages s' = messages s
   \<and> (\<forall>e. recipients conns (IoEmit e) = conns)"
    using d
    by (auto simp: disconnect_def Let_def delete_conv' not_key_delete delivered_def
             split: option.splits)
  from ov rest show ?thesis by blast
qed

theorem disconnect_cleanup_witness:
  "users both_typing = [(''a'', \<lparr> username = JStr ''Alice'', uid = ''a'' \<rparr>),
                        (''b'', \<lparr> username = JStr ''Bob'', uid = ''b'' \<rparr>)]
   \<and> typingUsers both_typing = [(''a'', JStr ''Alice''), (''b'', JStr ''Bob'')]
   \<and> disconnect both_typing ''a'' =
       (both_typing\<lparr> users := [(''b'', \<lparr> username = JStr ''Bob'', uid = ''b'' \<rparr>)],
                      typingUsers := [(''b'', JStr ''Bob'')] \<rparr>,
        [IoEmit (User_left (JStr ''Alice'') ''a''), Console (Log_left (JStr ''Alice'')),
         IoEmit (User_list [\<lparr> username = JStr ''Bob'', uid = ''b'' \<rparr>]),
         IoEmit (Typing_users [JStr ''Bob''])])
   \<and> delivered [''b'', ''c''] (snd (disconnect both_typing ''a'')) = [''b'', ''c'', ''b'', ''c'', ''b'', ''c'']
   \<and> disconnect both_typing ''c'' =
       (both_typing,
        [IoEmit (User_list [\<lparr> username = JStr ''Alice'', uid = ''a'' \<rparr>,
                            \<lparr> username = JStr ''Bob'', uid = ''b'' \<rparr>]),
         IoEmit (Typing_users [JStr ''Alice'', JStr ''Bob''])])"
proof -
  let ?s' = "both_typing\<lparr> users := [(''b'', \<lparr> username = JStr ''Bob'', uid = ''b'' \<rparr>)],
                          typingUsers := [(''b'', JStr ''Bob'')] \<rparr>"
  have u: "users both_typing = [(''a'', \<lparr> username = JStr ''Alice'', uid = ''a'' \<rparr>),
                                (''b'', \<lparr> username = JStr ''Bob'', uid = ''b'' \<rparr>)]"
    by (simp add: both_typing_def eval_defs)
  have t: "typingUsers both_typing = [(''a'', JStr ''Alice''), (''b'', JStr ''Bob'')]"
    by (simp add: both_typing_def eval_defs)
  obtain s' effs where d: "disconnect both_typing ''a'' = (s', effs)"
    by (cases "disconnect both_typing ''a''")
  have reg: "map_of (users both_typing) ''a'' = Some \<lparr> username = JStr ''Alice'', uid = ''a'' \<rparr>"
    by (simp add: u)
  note T = disconnect_cleanup [OF d, of "[''b'', ''c'']"]
  from T have us: "users s' = AList.delete ''a'' (users both_typing)"
    and ts: "typingUsers s' = AList.delete ''a'' (typingUsers both_typing)"
    and ms: "messages s' = messages both_typing"
    by blast+
  from T reg have ef: "effs = [IoEmit (User_left (JStr ''Alice'') ''a''), Console (Log_left (JStr ''Alice'')),
                IoEmit (User_list (Object_values (users s'))),
                IoEmit (Typing_users (Object_values (typingUsers s')))]"
    and dl: "delivered [''b'', ''c''] effs = [''b'', ''c''] @ [''b'', ''c''] @ [''b'', ''c'']"
    by auto
  from T have ov: "Object_values (users s') = map snd (filter (\<lambda>kv. fst kv \<noteq> ''a'') (users both_typing))"
    and ot: "Object_values (typingUsers s')
               = map snd (filter (\<lambda>kv. fst kv \<noteq> ''a'') (typingUsers both_typing))"
    by blast+
  have s'_eq: "s' = ?s'"
    using us ts ms by (simp add: u t)
  have a: "disconnect both_typing ''a'' =
       (?s',
        [IoEmit (User_left (JStr ''Alice'') ''a''), Console (Log_left (JStr ''Alice'')),
         IoEmit (User_list [\<lparr> username = JStr ''Bob'', uid = ''b'' \<rparr>]),
         IoEmit (Typing_users [JStr ''Bob''])])"
    using d ef ov ot s'_eq by (simp add: u t)
  have b: "delivered [''b'', ''c''] (snd (disconnect both_typing ''a''))
             = [''b'', ''c'', ''b'', ''c'', ''b'', ''c'']"
    using d dl by simp
  have c: "disconnect both_typing ''c'' =
       (both_typing,
        [IoEmit (User_list [\<lparr> username = JStr ''Alice'', uid = ''a'' \<rparr>,
                            \<lparr> username = JStr ''Bob'', uid = ''b'' \<rparr>]),
         IoEmit (Typing_users [JStr ''Alice'', JStr ''Bob''])])"
    by (simp add: disconnect_def Let_def Object_values_def u t)
  from u t a b c show ?thesis by blast
qed

text \<open>
  C7. \<open>typing\<close> from a socket without an entry in \<open>users\<close> changes nothing and emits
  nothing. From a registered socket, \<open>true\<close> sets the mark to the registered name and
  \<open>false\<close> deletes it, and the handler emits the full \<open>typing_users\<close> list with \<open>io.emit\<close>
  every time, whatever the value and whether or not the marks changed.
\<close>

theorem typing_handler:
  "(map_of (users s) sid = None \<longrightarrow> typing s sid isTyping = (s, []))
   \<and> (map_of (users s) sid = Some u \<longrightarrow>
        typing s sid (JBool True) =
          (s\<lparr> typingUsers := AList.update sid (username u) (typingUsers s) \<rparr>,
           [IoEmit (Typing_users (Object_values (AList.update sid (username u) (typingUsers s))))])
      \<and> map_of (typingUsers (fst (typing s sid (JBool True)))) sid = Some (username u)
      \<and> typing s sid (JBool False) =
          (s\<lparr> typingUsers := AList.delete sid (typingUsers s) \<rparr>,
           [IoEmit (Typing_users (Object_values (AList.delete sid (typingUsers s))))])
      \<and> map_of (typingUsers (fst (typing s sid (JBool False)))) sid = None
      \<and> snd (typing s sid isTyping) =
          [IoEmit (Typing_users (Object_values (typingUsers (fst (typing s sid isTyping)))))]
      \<and> recipients conns (hd (snd (typing s sid isTyping))) = conns)"
  by (auto simp: typing_def Let_def update_conv' delete_conv')

theorem typing_handler_witness:
  "map_of (users alice_joined) ''a'' = Some \<lparr> username = JStr ''Alice'', uid = ''a'' \<rparr>
   \<and> map_of (users alice_joined) ''b'' = None
   \<and> typing alice_joined ''b'' (JBool True) = (alice_joined, [])
   \<and> typing alice_joined ''a'' (JBool True) =
        (alice_joined\<lparr> typingUsers := [(''a'', JStr ''Alice'')] \<rparr>,
         [IoEmit (Typing_users [JStr ''Alice''])])
   \<and> typing alice_joined ''a'' (JBool False) = (alice_joined, [IoEmit (Typing_users [])])"
proof -
  have a: "map_of (users alice_joined) ''a'' = Some \<lparr> username = JStr ''Alice'', uid = ''a'' \<rparr>"
    by (simp add: alice_joined_def user_join_def init_state_def Let_def)
  have b: "map_of (users alice_joined) ''b'' = None"
    by (simp add: alice_joined_def user_join_def init_state_def Let_def)
  have ty: "typingUsers alice_joined = []"
    by (simp add: alice_joined_def user_join_def init_state_def Let_def)
  from typing_handler [of alice_joined "''a''" "JBool True" "\<lparr> username = JStr ''Alice'', uid = ''a'' \<rparr>" "[]"]
       typing_handler [of alice_joined "''b''" "JBool True" "\<lparr> username = JStr ''Alice'', uid = ''a'' \<rparr>" "[]"]
       a b ty
  show ?thesis by (simp add: Object_values_def)
qed

subsection \<open>Message.create\<close>

lemma Message_create_Inr:
  "Message_create env d msgs = Inr (saved, msgs') \<Longrightarrow>
     MessageSchema env d = Inr saved \<and> msgs' = msgs @ [saved] \<and> db_up env"
  by (auto simp: Message_create_def split: sum.splits if_splits)

lemma castString_Inl: "castString v = Inl e \<Longrightarrow> e = ValidationError"
  by (cases e) (auto split: option.splits jsval.splits if_splits elim: castString.elims)

lemma string_path_Inl: "string_path dflt v = Inl e \<Longrightarrow> e = ValidationError"
  by (auto simp: string_path_def castString_Inl split: if_splits)

lemma MessageSchema_Inl: "MessageSchema env d = Inl e \<Longrightarrow> e = ValidationError"
  by (auto simp: MessageSchema_def split: sum.splits if_splits dest: string_path_Inl)

lemma sender_of_schema:
  assumes "MessageSchema env d = Inr saved"
  shows "d_sender d = JStr n \<longrightarrow> m_sender saved = Some n"
  using assms
  by (auto simp: MessageSchema_def string_path_def split: sum.splits if_splits)

subsection \<open>A rejected create\<close>

text \<open>
  C2. When \<open>Message.create\<close> rejects in the public or in the private handler, the handler
  only writes the error to the console: the state (users, typing marks, message
  collection) is the one before the event, so every later history query answers as
  before; no emit is made, so no socket receives anything; and the rejection is caught.
  The private handler reaches \<open>Message.create\<close> only with a payload that is neither
  \<open>undefined\<close> nor \<open>null\<close>.
\<close>

theorem failed_create_is_silent:
  "(Message_create env (public_draft s sid md) (messages s) = Inl err \<longrightarrow>
      send_message s sid md env = (s, [Console (Log_public_error err)])
      \<and> delivered conns (snd (send_message s sid md env)) = []
      \<and> UnhandledRejection \<notin> set (snd (send_message s sid md env))
      \<and> api_messages (fst (send_message s sid md env)) parsed rp ok = api_messages s parsed rp ok)
   \<and> (\<not> nullish p \<and> Message_create env (private_draft s sid p) (messages s) = Inl err \<longrightarrow>
      private_message s sid p env = (s, [Console (Log_private_error err)])
      \<and> delivered conns (snd (private_message s sid p env)) = []
      \<and> UnhandledRejection \<notin> set (snd (private_message s sid p env))
      \<and> api_messages (fst (private_message s sid p env)) parsed rp ok = api_messages s parsed rp ok)"
  by (simp add: send_message_def private_message_def delivered_def)

theorem failed_create_is_silent_witness:
  "Message_create env_down (public_draft alice_typing ''a'' hi_payload) (messages alice_typing)
     = Inl StorageUnavailable
   \<and> Message_create env_down (private_draft alice_typing ''a'' dm_payload) (messages alice_typing)
     = Inl StorageUnavailable
   \<and> send_message alice_typing ''a'' hi_payload env_down
     = (alice_typing, [Console (Log_public_error StorageUnavailable)])
   \<and> private_message alice_typing ''a'' dm_payload env_down
     = (alice_typing, [Console (Log_private_error StorageUnavailable)])"
proof -
  have a: "Message_create env_down (public_draft alice_typing ''a'' hi_payload)
             (messages alice_typing) = Inl StorageUnavailable"
    by (simp add: eval_defs)
  have b: "Message_create env_down (private_draft alice_typing ''a'' dm_payload)
             (messages alice_typing) = Inl StorageUnavailable"
    by (simp add: eval_defs)
  have n: "\<not> nullish dm_payload" by (simp add: dm_payload_def)
  from failed_create_is_silent
         [of env_down alice_typing "''a''" hi_payload StorageUnavailable "[''a'', ''b'']"
             None None True dm_payload]
       a b n
  show ?thesis by simp
qed

subsection \<open>Private delivery\<close>

lemma filter_eq_single: "distinct xs \<Longrightarrow> x \<in> set xs \<Longrightarrow> filter (\<lambda>c. c = x) xs = [x]"
  by (induction xs) (auto simp: filter_empty_conv)

lemma filter_eq_single_except:
  "distinct xs \<Longrightarrow> x \<in> set xs \<Longrightarrow> x \<noteq> y \<Longrightarrow> filter (\<lambda>c. c = x \<and> c \<noteq> y) xs = [x]"
  by (induction xs) (auto simp: filter_empty_conv)

lemma opt_get_not_nullish: "opt_get p k = JStr c \<Longrightarrow> \<not> nullish p"
  by (cases p) auto

text \<open>
  C8. A private message to \<open>to = c2\<close> that is persisted causes exactly two emits:
  \<open>socket.to(c2).emit\<close> and \<open>socket.emit\<close>. Both carry the projection of the persisted
  document: its \<open>_id\<close>, sender, sender id, \<open>to\<close>, text (under \<open>message\<close>), private flag and
  \<open>createdAt\<close>. Neither is \<open>io.emit\<close>. Whatever sockets are connected, only \<open>c2\<close> and the
  sender receive it, no third socket \<open>c3\<close> does, and when \<open>c2\<close> is a connected socket other
  than the sender, \<open>c2\<close> and the sender receive it once each.
\<close>

theorem private_delivery:
  assumes t: "opt_get p ''to'' = JStr c2"
    and c: "Message_create env (private_draft s sid p) (messages s) = Inr (saved, msgs)"
  shows "private_message s sid p env =
           (s\<lparr> messages := msgs \<rparr>,
            [Created saved,
             SocketTo sid (JStr c2) (Private_message (private_projection saved)),
             SocketEmit sid (Private_message (private_projection saved))])
         \<and> private_projection saved =
             \<lparr> q_id = m_id saved, q_sender = m_sender saved, q_senderId = m_senderId saved,
               q_to = m_to saved, q_message = m_text saved, q_isPrivate = m_isPrivate saved,
               q_timestamp = m_createdAt saved \<rparr>
         \<and> msgs = messages s @ [saved]
         \<and> m_id saved = fresh_id env \<and> m_createdAt saved = now env
         \<and> m_senderId saved = Some sid
         \<and> (\<forall>txt. opt_get p ''message'' = JStr txt \<longrightarrow> m_text saved = Some txt)
         \<and> set (delivered conns (snd (private_message s sid p env))) \<subseteq> {c2, sid}
         \<and> (c3 \<noteq> c2 \<and> c3 \<noteq> sid \<longrightarrow> c3 \<notin> set (delivered conns (snd (private_message s sid p env))))
         \<and> (distinct conns \<and> c2 \<in> set conns \<and> sid \<in> set conns \<and> c2 \<noteq> sid \<longrightarrow>
              delivered conns (snd (private_message s sid p env)) = [c2, sid])
         \<and> (\<forall>e. IoEmit e \<notin> set (snd (private_message s sid p env)))
         \<and> m_to saved = Some c2 \<and> m_isPrivate saved \<and> m_room saved = None"
proof -
  let ?effs = "[Created saved,
                SocketTo sid (JStr c2) (Private_message (private_projection saved)),
                SocketEmit sid (Private_message (private_projection saved))]"
  have n: "\<not> nullish p" using t by (rule opt_get_not_nullish)
  have pm: "private_message s sid p env = (s\<lparr> messages := msgs \<rparr>, ?effs)"
    using n t c by (simp add: private_message_def)
  have pr: "private_projection saved =
             \<lparr> q_id = m_id saved, q_sender = m_sender saved, q_senderId = m_senderId saved,
               q_to = m_to saved, q_message = m_text saved, q_isPrivate = m_isPrivate saved,
               q_timestamp = m_createdAt saved \<rparr>"
    by (simp add: private_projection_def)
  have d: "delivered conns ?effs
             = filter (\<lambda>c. c = c2 \<and> c \<noteq> sid) conns @ filter (\<lambda>c. c = sid) conns"
    by (simp add: delivered_def)
  have sub: "set (delivered conns ?effs) \<subseteq> {c2, sid}"
    unfolding d by auto
  have third: "c3 \<noteq> c2 \<and> c3 \<noteq> sid \<longrightarrow> c3 \<notin> set (delivered conns ?effs)"
    using sub by auto
  have both: "distinct conns \<and> c2 \<in> set conns \<and> sid \<in> set conns \<and> c2 \<noteq> sid \<longrightarrow>
                delivered conns ?effs = [c2, sid]"
    unfolding d by (simp add: filter_eq_single filter_eq_single_except)
  have sch: "MessageSchema env (private_draft s sid p) = Inr saved"
    and ms: "msgs = messages s @ [saved]"
    using Message_create_Inr [OF c] by simp_all
  have f: "m_to saved = Some c2 \<and> m_isPrivate saved \<and> m_room saved = None
           \<and> m_id saved = fresh_id env \<and> m_createdAt saved = now env
           \<and> m_senderId saved = Some sid"
    using sch t
    by (auto simp: MessageSchema_def private_draft_def string_path_def
             split: sum.splits if_splits)
  have tx: "\<forall>txt. opt_get p ''message'' = JStr txt \<longrightarrow> m_text saved = Some txt"
    using sch
    by (auto simp: MessageSchema_def private_draft_def string_path_def
             split: sum.splits if_splits)
  have no_io: "\<forall>e. IoEmit e \<notin> set ?effs" by simp
  from pm pr ms sub third both f tx no_io show ?thesis by simp
qed

theorem private_delivery_witness:
  "opt_get dm_payload ''to'' = JStr ''b''
   \<and> Message_create env_up (private_draft init_state ''a'' dm_payload) (messages init_state)
       = Inr (dm_doc, [dm_doc])
   \<and> private_message init_state ''a'' dm_payload env_up =
       (init_state\<lparr> messages := [dm_doc] \<rparr>,
        [Created dm_doc,
         SocketTo ''a'' (JStr ''b'')
           (Private_message \<lparr> q_id = 1, q_sender = Some ''Anonymous'', q_senderId = Some ''a'',
              q_to = Some ''b'', q_message = Some ''psst'', q_isPrivate = True,
              q_timestamp = 1000 \<rparr>),
         SocketEmit ''a''
           (Private_message \<lparr> q_id = 1, q_sender = Some ''Anonymous'', q_senderId = Some ''a'',
              q_to = Some ''b'', q_message = Some ''psst'', q_isPrivate = True,
              q_timestamp = 1000 \<rparr>)])
   \<and> delivered [''a'', ''b'', ''c''] (snd (private_message init_state ''a'' dm_payload env_up))
       = [''b'', ''a'']
   \<and> ''c'' \<notin> set (delivered [''a'', ''b'', ''c''] (snd (private_message init_state ''a'' dm_payload env_up)))"
proof -
  let ?pl = "\<lparr> q_id = 1, q_sender = Some ''Anonymous'', q_senderId = Some ''a'',
              q_to = Some ''b'', q_message = Some ''psst'', q_isPrivate = True,
              q_timestamp = 1000 \<rparr>"
  have t: "opt_get dm_payload ''to'' = JStr ''b''" by (simp add: dm_payload_def)
  have c: "Message_create env_up (private_draft init_state ''a'' dm_payload) (messages init_state)
             = Inr (dm_doc, [dm_doc])"
    by (simp add: eval_defs)
  have pre: "distinct [''a'', ''b'', ''c''] \<and> ''b'' \<in> set [''a'', ''b'', ''c'']
             \<and> ''a'' \<in> set [''a'', ''b'', ''c''] \<and> ''b'' \<noteq> ''a''"
    by simp
  have third: "''c'' \<noteq> ''b'' \<and> ''c'' \<noteq> ''a''" by simp
  note T = private_delivery [OF t c, of "[''a'', ''b'', ''c'']" "''c''"]
  from T have pj: "private_projection dm_doc =
             \<lparr> q_id = m_id dm_doc, q_sender = m_sender dm_doc, q_senderId = m_senderId dm_doc,
               q_to = m_to dm_doc, q_message = m_text dm_doc, q_isPrivate = m_isPrivate dm_doc,
               q_timestamp = m_createdAt dm_doc \<rparr>"
    by blast
  have pj': "private_projection dm_doc = ?pl"
    by (simp only: pj) (simp add: dm_doc_def)
  from T have "private_message init_state ''a'' dm_payload env_up =
           (init_state\<lparr> messages := [dm_doc] \<rparr>,
            [Created dm_doc,
             SocketTo ''a'' (JStr ''b'') (Private_message (private_projection dm_doc)),
             SocketEmit ''a'' (Private_message (private_projection dm_doc))])"
    by blast
  then have pm: "private_message init_state ''a'' dm_payload env_up =
       (init_state\<lparr> messages := [dm_doc] \<rparr>,
        [Created dm_doc, SocketTo ''a'' (JStr ''b'') (Private_message ?pl),
         SocketEmit ''a'' (Private_message ?pl)])"
    by (simp only: pj')
  from T pre third
  have dl: "delivered [''a'', ''b'', ''c''] (snd (private_message init_state ''a'' dm_payload env_up))
       = [''b'', ''a'']
     \<and> ''c'' \<notin> set (delivered [''a'', ''b'', ''c''] (snd (private_message init_state ''a'' dm_payload env_up)))"
    by blast
  from t c pm dl show ?thesis by blast
qed

subsection \<open>The sender of a persisted message\<close>

text \<open>
  C9, as the claim states it, fails: a socket that joined with the empty name has a
  registered participant, and its messages are persisted with the sender \<open>Anonymous\<close>,
  which is not the registered name.
\<close>

theorem sender_anonymous_counterexample:
  "map_of (users nameless_joined) ''a'' = Some \<lparr> username = JStr '''', uid = ''a'' \<rparr>
   \<and> map m_sender (messages (fst (send_message nameless_joined ''a'' hi_payload env_up)))
       = [Some ''Anonymous'']"
  by (simp add: eval_defs)

text \<open>
  C9, amended. For a public or private send that is persisted, the sender is the name
  registered for the sending socket when that name is a non-empty string, and is
  \<open>Anonymous\<close> when the socket has no entry in \<open>users\<close> or its registered name is falsy
  (\<open>undefined\<close>, \<open>null\<close>, \<open>false\<close> or the empty string).
\<close>

theorem sender_resolution:
  assumes "Message_create env (public_draft s sid md) (messages s) = Inr (saved, msgs)
           \<or> Message_create env (private_draft s sid p) (messages s) = Inr (saved, msgs)"
  shows "(map_of (users s) sid = None \<longrightarrow> m_sender saved = Some ''Anonymous'')
       \<and> (\<forall>u. map_of (users s) sid = Some u \<and> \<not> truthy (username u) \<longrightarrow>
              m_sender saved = Some ''Anonymous'')
       \<and> (\<forall>u n. map_of (users s) sid = Some u \<and> username u = JStr n \<and> n \<noteq> [] \<longrightarrow>
              m_sender saved = Some n)"
proof -
  from assms have "\<exists>d. MessageSchema env d = Inr saved
                      \<and> d_sender d = or_else (user_name s sid) (JStr ''Anonymous'')"
  proof
    assume "Message_create env (public_draft s sid md) (messages s) = Inr (saved, msgs)"
    from Message_create_Inr [OF this] show ?thesis
      by (intro exI [of _ "public_draft s sid md"]) (simp add: public_draft_def Let_def)
  next
    assume "Message_create env (private_draft s sid p) (messages s) = Inr (saved, msgs)"
    from Message_create_Inr [OF this] show ?thesis
      by (intro exI [of _ "private_draft s sid p"]) (simp add: private_draft_def)
  qed
  then obtain d where sch: "MessageSchema env d = Inr saved"
    and snd: "d_sender d = or_else (user_name s sid) (JStr ''Anonymous'')" by blast
  have a: "\<not> truthy (user_name s sid) \<Longrightarrow> m_sender saved = Some ''Anonymous''"
    using sender_of_schema [OF sch, of "''Anonymous''"] snd by (simp add: or_else_def)
  have b: "\<And>n. user_name s sid = JStr n \<Longrightarrow> n \<noteq> [] \<Longrightarrow> m_sender saved = Some n"
    using sender_of_schema [OF sch] snd by (simp add: or_else_def)
  show ?thesis
    using a b by (auto simp: user_name_def)
qed

theorem sender_resolution_witness:
  "Message_create env_up (public_draft alice_joined ''a'' hi_payload) (messages alice_joined)
     = Inr (alice_hi_doc, [alice_hi_doc])
   \<and> map_of (users alice_joined) ''a'' = Some \<lparr> username = JStr ''Alice'', uid = ''a'' \<rparr>
   \<and> m_sender alice_hi_doc = Some ''Alice''"
proof -
  have c: "Message_create env_up (public_draft alice_joined ''a'' hi_payload) (messages alice_joined)
             = Inr (alice_hi_doc, [alice_hi_doc])"
    by (simp add: eval_defs)
  have u: "map_of (users alice_joined) ''a'' = Some \<lparr> username = JStr ''Alice'', uid = ''a'' \<rparr>"
    by (simp add: eval_defs)
  from sender_resolution [OF disjI1, OF c] u c show ?thesis by simp
qed

subsection \<open>The text of a message\<close>

text \<open>
  C3, as the claim states it, fails: a public send without \<open>message\<close> and \<open>text\<close> has the
  empty text, the schema's \<open>required\<close> rejects the empty string, and the message is
  neither persisted nor broadcast, although the database is up.
\<close>

theorem empty_text_counterexample:
  "send_message init_state ''a'' (JObj []) env_up
     = (init_state, [Console (Log_public_error ValidationError)])
   \<and> Message_create env_up
        \<lparr> d_room = JStr ''global'', d_text = JStr '''', d_sender = JStr ''Anonymous'',
          d_senderId = JStr ''a'', d_to = JNull, d_isPrivate = False \<rparr> []
     = Inl ValidationError"
  by (simp add: eval_defs)

text \<open>
  C3, amended. \<open>Message.create\<close> rejects a draft whose text is the empty string, \<open>null\<close>
  or \<open>undefined\<close> with a validation error. A public send whose payload has neither
  \<open>message\<close> nor \<open>text\<close> defaults the text to the empty string and is therefore only
  logged: nothing is persisted and nothing is broadcast. A public send whose \<open>message\<close>
  is a non-empty string, whose room is absent or a string and whose sender's registered
  name is falsy or a string is persisted with that text and broadcast whenever the
  database is up.
\<close>

theorem text_content_rule:
  "(d_text d = JStr [] \<or> nullish (d_text d) \<longrightarrow> Message_create env d msgs = Inl ValidationError)
   \<and> (nullish (opt_get md ''message'') \<and> nullish (opt_get md ''text'') \<longrightarrow>
        d_text (public_draft s sid md) = JStr []
        \<and> send_message s sid md env = (s, [Console (Log_public_error ValidationError)]))
   \<and> (opt_get md ''message'' = JStr t \<and> t \<noteq> []
        \<and> (nullish (opt_get md ''room'') \<or> is_string (opt_get md ''room''))
        \<and> (\<not> truthy (user_name s sid) \<or> is_string (user_name s sid))
        \<and> db_up env \<longrightarrow>
        (\<exists>saved. send_message s sid md env =
            (s\<lparr> messages := messages s @ [saved] \<rparr>,
             [Created saved, IoEmit (Receive_message (public_projection saved))])
          \<and> m_text saved = Some t))"
proof (intro conjI impI)
  assume "d_text d = JStr [] \<or> nullish (d_text d)"
  then have "\<And>doc. MessageSchema env d \<noteq> Inr doc"
    by (cases "d_text d")
       (auto simp: MessageSchema_def string_path_def split: sum.splits if_splits)
  then have "\<exists>e. MessageSchema env d = Inl e"
    by (cases "MessageSchema env d") auto
  then show "Message_create env d msgs = Inl ValidationError"
    by (auto simp: Message_create_def dest: MessageSchema_Inl)
next
  assume h: "nullish (opt_get md ''message'') \<and> nullish (opt_get md ''text'')"
  then show "d_text (public_draft s sid md) = JStr []"
    by (simp add: public_draft_def coalesce_def Let_def)
  then have "\<And>doc. MessageSchema env (public_draft s sid md) \<noteq> Inr doc"
    by (auto simp: MessageSchema_def string_path_def split: sum.splits if_splits)
  then have "\<exists>e. MessageSchema env (public_draft s sid md) = Inl e"
    by (cases "MessageSchema env (public_draft s sid md)") auto
  then have "Message_create env (public_draft s sid md) (messages s) = Inl ValidationError"
    by (auto simp: Message_create_def dest: MessageSchema_Inl)
  then show "send_message s sid md env = (s, [Console (Log_public_error ValidationError)])"
    by (simp add: send_message_def)
next
  assume h: "opt_get md ''message'' = JStr t \<and> t \<noteq> []
        \<and> (nullish (opt_get md ''room'') \<or> is_string (opt_get md ''room''))
        \<and> (\<not> truthy (user_name s sid) \<or> is_string (user_name s sid))
        \<and> db_up env"
  then show "\<exists>saved. send_message s sid md env =
            (s\<lparr> messages := messages s @ [saved] \<rparr>,
             [Created saved, IoEmit (Receive_message (public_projection saved))])
          \<and> m_text saved = Some t"
    by (cases "opt_get md ''room''"; cases "user_name s sid")
       (auto simp: send_message_def Message_create_def MessageSchema_def public_draft_def
          string_path_def coalesce_def or_else_def Let_def)
qed

theorem text_content_rule_witness:
  "Message_create env_up
        \<lparr> d_room = JNull, d_text = JStr '''', d_sender = JStr ''Anonymous'',
          d_senderId = JStr ''a'', d_to = JStr ''b'', d_isPrivate = True \<rparr> []
     = Inl ValidationError
   \<and> send_message alice_joined ''a'' (JObj [(''room'', JStr ''lobby'')]) env_up
     = (alice_joined, [Console (Log_public_error ValidationError)])
   \<and> (\<exists>saved. send_message alice_joined ''a'' hi_payload env_up
         = (alice_joined\<lparr> messages := messages alice_joined @ [saved] \<rparr>,
            [Created saved, IoEmit (Receive_message (public_projection saved))])
        \<and> m_text saved = Some ''hi'')
   \<and> send_message alice_joined ''a'' hi_payload env_up
     = (alice_joined\<lparr> messages := [alice_hi_doc] \<rparr>,
        [Created alice_hi_doc, IoEmit (Receive_message (public_projection alice_hi_doc))])"
proof -
  let ?d = "\<lparr> d_room = JNull, d_text = JStr '''', d_sender = JStr ''Anonymous'',
               d_senderId = JStr ''a'', d_to = JStr ''b'', d_isPrivate = True \<rparr>"
  have r: "send_message alice_joined ''a'' hi_payload env_up
     = (alice_joined\<lparr> messages := [alice_hi_doc] \<rparr>,
        [Created alice_hi_doc, IoEmit (Receive_message (public_projection alice_hi_doc))])"
    by (simp add: eval_defs)
  have h1: "d_text ?d = JStr [] \<or> nullish (d_text ?d)" by simp
  have h2: "nullish (opt_get (JObj [(''room'', JStr ''lobby'')]) ''message'')
            \<and> nullish (opt_get (JObj [(''room'', JStr ''lobby'')]) ''text'')"
    by simp
  have h3: "opt_get hi_payload ''message'' = JStr ''hi'' \<and> ''hi'' \<noteq> []
            \<and> (nullish (opt_get hi_payload ''room'') \<or> is_string (opt_get hi_payload ''room''))
            \<and> (\<not> truthy (user_name alice_joined ''a'') \<or> is_string (user_name alice_joined ''a''))
            \<and> db_up env_up"
    by (simp add: eval_defs)
  from text_content_rule
         [of ?d env_up "[]" "JObj [(''room'', JStr ''lobby'')]" alice_joined "''a''" "''hi''"]
       h1 h2
  have a: "Message_create env_up ?d [] = Inl ValidationError
           \<and> send_message alice_joined ''a'' (JObj [(''room'', JStr ''lobby'')]) env_up
               = (alice_joined, [Console (Log_public_error ValidationError)])"
    by blast
  from text_content_rule [of ?d env_up "[]" hi_payload alice_joined "''a''" "''hi''"] h3
  have b: "\<exists>saved. send_message alice_joined ''a'' hi_payload env_up
         = (alice_joined\<lparr> messages := messages alice_joined @ [saved] \<rparr>,
            [Created saved, IoEmit (Receive_message (public_projection saved))])
        \<and> m_text saved = Some ''hi''"
    by blast
  from a b r show ?thesis by blast
qed

subsection \<open>GET /api/messages\<close>

lemma effective_room_nonempty: "effective_room rp \<noteq> []"
  by (simp add: effective_room_def split: option.splits)

lemma effective_limit_nonzero: "effective_limit parsed \<noteq> 0"
  by (simp add: effective_limit_def min_def split: option.splits)

lemma api_messages_ok:
  "api_messages s parsed rp True =
     (Json (rev (take (nat \<bar>effective_limit parsed\<bar>)
              (sort_newest_first (filter (\<lambda>m. m_room m = Some (effective_room rp)) (messages s))))), [])"
  by (simp add: api_messages_def Let_def cursor_limit_def effective_room_nonempty effective_limit_nonzero)

lemma sorted_rev_of_descending:
  "sorted (map (\<lambda>m. - f m) ys) \<Longrightarrow> sorted (map (f :: 'a \<Rightarrow> int) (rev ys))"
  by (induction ys) (auto simp: sorted_append)

lemma oldest_first:
  "sorted (map m_createdAt (rev (take k (sort_newest_first docs))))"
proof -
  have "sorted (map (\<lambda>m. - m_createdAt m) (sort_newest_first docs))"
    by (simp add: sort_newest_first_def)
  then have "sorted (take k (map (\<lambda>m. - m_createdAt m) (sort_newest_first docs)))"
    by (rule sorted_wrt_take)
  then have "sorted (map (\<lambda>m. - m_createdAt m) (take k (sort_newest_first docs)))"
    by (simp add: take_map)
  then show ?thesis by (rule sorted_rev_of_descending)
qed

lemma distinct_map_insort_key:
  "distinct (map f (insort_key g x xs)) \<longleftrightarrow> f x \<notin> f ` set xs \<and> distinct (map f xs)"
  by (induction xs) (auto simp: set_insort_key)

lemma distinct_map_sort_key:
  "distinct (map f xs) \<Longrightarrow> distinct (map f (sort_key g xs))"
  by (induction xs) (simp_all add: distinct_map_insort_key)

lemma strictly_oldest_first:
  assumes "distinct (map m_createdAt docs)"
  shows "sorted_wrt (<) (map m_createdAt (rev (take k (sort_newest_first (filter P docs)))))"
proof -
  have "distinct (map m_createdAt (filter P docs))"
    using assms by (rule distinct_map_filter)
  then have "distinct (map m_createdAt (sort_newest_first (filter P docs)))"
    unfolding sort_newest_first_def by (rule distinct_map_sort_key)
  then have "distinct (take k (map m_createdAt (sort_newest_first (filter P docs))))"
    by (rule distinct_take)
  then have "distinct (rev (map m_createdAt (take k (sort_newest_first (filter P docs)))))"
    by (simp only: take_map distinct_rev)
  then have "distinct (map m_createdAt (rev (take k (sort_newest_first (filter P docs)))))"
    by (simp only: rev_map)
  with oldest_first [of k "filter P docs"] show ?thesis
    by (simp add: strict_sorted_iff)
qed

text \<open>
  C4, as the claim states it, fails: with \<open>limit = 0\<close> the result is not bounded by
  \<open>min(0, 200) = 0\<close>, because \<open>parseInt(...) || 50\<close> takes \<open>0\<close> for absent.
\<close>

theorem limit_zero_counterexample:
  "api_messages alice_said_hi (Some 0) None True = (Json [alice_hi_doc], [])
   \<and> \<not> int (length [alice_hi_doc]) \<le> min 0 200"
  by (simp add: eval_defs api_messages_def effective_room_def effective_limit_def
        cursor_limit_def sort_newest_first_def)

text \<open>
  C4, amended. A history query that the database answers returns messages of the
  requested room only, oldest first by \<open>createdAt\<close> (non-decreasing, and strictly
  increasing when no two stored messages have the same \<open>createdAt\<close>); at most
  \<open>min(limit, 200)\<close> of them when \<open>limit \<ge> 1\<close>, and at most \<open>50\<close> when \<open>limit\<close> is absent,
  not a number or \<open>0\<close>; an absent limit is read as \<open>50\<close> and an absent room as \<open>global\<close>;
  and the result is the empty list, not an error, when no message matches.
\<close>

theorem history_query:
  "\<exists>docs. api_messages s parsed rp True = (Json docs, [])
     \<and> sorted (map m_createdAt docs)
     \<and> (distinct (map m_createdAt (messages s)) \<longrightarrow> sorted_wrt (<) (map m_createdAt docs))
     \<and> set docs \<subseteq> {m \<in> set (messages s). m_room m = Some (effective_room rp)}
     \<and> (\<forall>n. parsed = Some n \<and> 1 \<le> n \<longrightarrow> int (length docs) \<le> min n 200)
     \<and> (parsed = None \<or> parsed = Some 0 \<longrightarrow> length docs \<le> 50)
     \<and> api_messages s None rp ok = api_messages s (Some 50) rp ok
     \<and> api_messages s parsed None ok = api_messages s parsed (Some ''global'') ok
     \<and> effective_room None = ''global''
     \<and> ((\<forall>m \<in> set (messages s). m_room m \<noteq> Some (effective_room rp)) \<longrightarrow> docs = [])"
proof -
  let ?match = "filter (\<lambda>m. m_room m = Some (effective_room rp)) (messages s)"
  let ?docs = "rev (take (nat \<bar>effective_limit parsed\<bar>) (sort_newest_first ?match))"
  have r: "api_messages s parsed rp True = (Json ?docs, [])" by (rule api_messages_ok)
  have so: "sorted (map m_createdAt ?docs)" by (rule oldest_first)
  have st: "distinct (map m_createdAt (messages s)) \<longrightarrow> sorted_wrt (<) (map m_createdAt ?docs)"
    by (simp add: strictly_oldest_first)
  have "set ?docs \<subseteq> set (sort_newest_first ?match)"
    by (simp add: set_take_subset)
  then have sub: "set ?docs \<subseteq> {m \<in> set (messages s). m_room m = Some (effective_room rp)}"
    by (auto simp: sort_newest_first_def)
  have len: "length ?docs \<le> nat \<bar>effective_limit parsed\<bar>" by simp
  have b1: "\<forall>n. parsed = Some n \<and> 1 \<le> n \<longrightarrow> int (length ?docs) \<le> min n 200"
    using len by (auto simp: effective_limit_def)
  have b2: "parsed = None \<or> parsed = Some 0 \<longrightarrow> length ?docs \<le> 50"
    using len by (auto simp: effective_limit_def)
  have d1: "api_messages s None rp ok = api_messages s (Some 50) rp ok"
    by (simp add: api_messages_def effective_limit_def)
  have d2: "api_messages s parsed None ok = api_messages s parsed (Some ''global'') ok"
    by (simp add: api_messages_def effective_room_def)
  have d3: "effective_room None = ''global''" by (simp add: effective_room_def)
  have e: "(\<forall>m \<in> set (messages s). m_room m \<noteq> Some (effective_room rp)) \<longrightarrow> ?docs = []"
    by (auto simp: sort_newest_first_def filter_empty_conv[THEN iffD2])
  from r so st sub b1 b2 d1 d2 d3 e show ?thesis by blast
qed

theorem history_query_witness:
  "messages alice_said_hi_twice = [alice_hi_doc, alice_hi_doc2]
   \<and> api_messages alice_said_hi_twice (Some 1) None True = (Json [alice_hi_doc2], [])
   \<and> api_messages alice_said_hi_twice None None True = (Json [alice_hi_doc, alice_hi_doc2], [])
   \<and> api_messages alice_said_hi_twice None (Some ''lobby'') True = (Json [], [])
   \<and> (\<exists>docs. api_messages alice_said_hi_twice (Some 1) None True = (Json docs, [])
         \<and> int (length docs) \<le> min 1 200
         \<and> sorted_wrt (<) (map m_createdAt docs))"
proof -
  have m: "messages alice_said_hi_twice = [alice_hi_doc, alice_hi_doc2]"
    by (simp add: eval_defs)
  have a: "api_messages alice_said_hi_twice (Some 1) None True = (Json [alice_hi_doc2], [])"
    by (simp add: m api_messages_def effective_room_def effective_limit_def cursor_limit_def
          sort_newest_first_def alice_hi_doc_def alice_hi_doc2_def Let_def)
  have b: "api_messages alice_said_hi_twice None None True = (Json [alice_hi_doc, alice_hi_doc2], [])"
    by (simp add: m api_messages_def effective_room_def effective_limit_def cursor_limit_def
          sort_newest_first_def alice_hi_doc_def alice_hi_doc2_def Let_def)
  have one: "(1::int) \<le> 1" by simp
  have dis: "distinct (map m_createdAt (messages alice_said_hi_twice))"
    by (simp add: m alice_hi_doc_def alice_hi_doc2_def)
  have nomatch: "\<forall>m \<in> set (messages alice_said_hi_twice).
                   m_room m \<noteq> Some (effective_room (Some ''lobby''))"
    by (simp add: m alice_hi_doc_def alice_hi_doc2_def effective_room_def)
  from history_query [of alice_said_hi_twice "Some 1" None True] one dis
  have q: "\<exists>docs. api_messages alice_said_hi_twice (Some 1) None True = (Json docs, [])
         \<and> int (length docs) \<le> min 1 200
         \<and> sorted_wrt (<) (map m_createdAt docs)"
    by blast
  from history_query [of alice_said_hi_twice None "Some ''lobby''" True] nomatch
  have c: "api_messages alice_said_hi_twice None (Some ''lobby'') True = (Json [], [])"
    by blast
  from m a b c q show ?thesis by blast
qed

subsection \<open>A persisted public message\<close>

lemma messages_handle_mono: "x \<in> set (messages s) \<Longrightarrow> x \<in> set (messages (fst (handle s e)))"
  by (cases e)
     (auto simp: user_join_def send_message_def typing_def private_message_def disconnect_def
                 Let_def Message_create_def
           split: sum.splits option.splits prod.splits if_splits)

lemma messages_run_mono: "x \<in> set (messages s) \<Longrightarrow> x \<in> set (messages (run s es))"
  by (induction es arbitrary: s) (simp_all add: messages_handle_mono)

lemma filter_sorted_is_takeWhile:
  fixes g :: "'a \<Rightarrow> int"
  shows "sorted (map g xs) \<Longrightarrow> filter (\<lambda>m. g m \<le> t) xs = takeWhile (\<lambda>m. g m \<le> t) xs"
proof (induction xs)
  case Nil
  then show ?case by simp
next
  case (Cons x xs)
  show ?case
  proof (cases "g x \<le> t")
    case True
    with Cons show ?thesis by simp
  next
    case False
    with Cons.prems have "\<forall>y \<in> set xs. \<not> g y \<le> t" by auto
    then have "filter (\<lambda>m. g m \<le> t) xs = []" by (simp add: filter_empty_conv)
    with False show ?thesis by simp
  qed
qed

lemma length_filter_sort_key: "length (filter P (sort_key f xs)) = length (filter P xs)"
  by (simp add: filter_sort)

lemma in_take_of_sorted:
  fixes g :: "'a \<Rightarrow> int"
  assumes x: "x \<in> set xs"
    and n: "length (filter (\<lambda>m. g m \<le> g x) xs) \<le> k"
  shows "x \<in> set (take k (sort_key g xs))"
proof -
  let ?P = "\<lambda>m. g m \<le> g x"
  let ?ys = "sort_key g xs"
  have srt: "sorted (map g ?ys)" by simp
  have tw: "filter ?P ?ys = takeWhile ?P ?ys"
    using srt by (rule filter_sorted_is_takeWhile)
  have len: "length (takeWhile ?P ?ys) \<le> k"
    using n by (simp add: tw [symmetric] length_filter_sort_key)
  have "x \<in> set (filter ?P ?ys)" using x by simp
  then have "x \<in> set (take (length (takeWhile ?P ?ys)) ?ys)"
    by (simp only: tw takeWhile_eq_take [symmetric])
  with set_take_subset_set_take [OF len, of ?ys] show ?thesis by blast
qed

lemma retrieved_when_among_newest:
  assumes mem: "saved \<in> set (messages s2)"
    and room: "m_room saved = Some r" "r \<noteq> []"
    and cnt: "int (length (filter (\<lambda>m. m_room m = Some r \<and> m_createdAt saved \<le> m_createdAt m)
                       (messages s2))) \<le> effective_limit parsed"
  shows "\<exists>docs. api_messages s2 parsed (Some r) True = (Json docs, []) \<and> saved \<in> set docs"
proof -
  let ?M = "filter (\<lambda>m. m_room m = Some r) (messages s2)"
  let ?k = "nat \<bar>effective_limit parsed\<bar>"
  have er: "effective_room (Some r) = r" using room by (simp add: effective_room_def)
  have inM: "saved \<in> set ?M" using mem room by simp
  have "length (filter (\<lambda>m. - m_createdAt m \<le> - m_createdAt saved) ?M) \<le> ?k"
    using cnt by (simp add: conj_commute)
  with inM have "saved \<in> set (take ?k (sort_key (\<lambda>m. - m_createdAt m) ?M))"
    by (rule in_take_of_sorted)
  then show ?thesis
    by (simp add: api_messages_ok er sort_newest_first_def)
qed

text \<open>
  C1, as the claim states it, fails in three ways. A public message sent with the room
  \<open>''\<close> is persisted and broadcast with that room, and a history query for the room \<open>''\<close>
  does not return it, because \<open>req.query.room || 'global'\<close> reads the empty room as
  \<open>global\<close>. A message that was persisted and broadcast is not returned by a query with
  limit 1 once a newer message of its room is stored. And a message with the same
  \<open>createdAt\<close> as an earlier one of its room is not returned by a query with limit 1 made
  right after it was broadcast.
\<close>

theorem history_retrieval_counterexample:
  "send_message init_state ''a'' empty_room_payload env_up
     = (init_state\<lparr> messages := [empty_room_doc] \<rparr>,
        [Created empty_room_doc, IoEmit (Receive_message (public_projection empty_room_doc))])
   \<and> p_room (public_projection empty_room_doc) = Some ''''
   \<and> api_messages (init_state\<lparr> messages := [empty_room_doc] \<rparr>) None (Some '''') True = (Json [], [])
   \<and> send_message alice_joined ''a'' hi_payload env_up
     = (alice_said_hi, [Created alice_hi_doc, IoEmit (Receive_message (public_projection alice_hi_doc))])
   \<and> api_messages (fst (send_message alice_said_hi ''a'' hi_payload env_later))
        (Some 1) (Some ''global'') True = (Json [alice_hi_doc2], [])
   \<and> send_message alice_said_hi ''a'' hi_payload env_same
     = (alice_said_hi\<lparr> messages := [alice_hi_doc, alice_hi_doc_tie] \<rparr>,
        [Created alice_hi_doc_tie, IoEmit (Receive_message (public_projection alice_hi_doc_tie))])
   \<and> api_messages (alice_said_hi\<lparr> messages := [alice_hi_doc, alice_hi_doc_tie] \<rparr>)
        (Some 1) (Some ''global'') True = (Json [alice_hi_doc], [])"
  by (simp add: eval_defs env_same_def alice_hi_doc_tie_def api_messages_def effective_room_def
        effective_limit_def cursor_limit_def sort_newest_first_def)

text \<open>
  C1, amended. When \<open>Message.create\<close> succeeds in the public handler, the document is
  in the collection before the only emit, an \<open>io.emit\<close> of \<open>receive_message\<close>, is made; the
  payload is the projection of the persisted document (\<open>id\<close>, \<open>sender\<close>, \<open>senderId\<close>, the
  text under \<open>message\<close>, \<open>room\<close>, \<open>isPrivate\<close>, \<open>timestamp\<close>), with the \<open>_id\<close> and the
  \<open>createdAt\<close> that the create assigned; the document stays in the collection whatever
  events \<open>es\<close> follow; and a history query for its room made after them returns it, with
  that id and timestamp, when the room is not the empty string and the messages of the
  room whose \<open>createdAt\<close> is not earlier than its own, itself included, are no more than
  the limit the query applies (\<open>min(limit, 200)\<close>, \<open>50\<close> for an absent limit or \<open>0\<close>).
\<close>

theorem public_send_persisted_then_broadcast:
  assumes c: "Message_create env (public_draft s sid md) (messages s) = Inr (saved, msgs)"
  shows "send_message s sid md env =
           (s\<lparr> messages := messages s @ [saved] \<rparr>,
            [Created saved, IoEmit (Receive_message (public_projection saved))])
       \<and> public_projection saved =
           \<lparr> p_id = m_id saved, p_sender = m_sender saved, p_senderId = m_senderId saved,
             p_message = m_text saved, p_room = m_room saved, p_isPrivate = m_isPrivate saved,
             p_timestamp = m_createdAt saved \<rparr>
       \<and> m_id saved = fresh_id env \<and> m_createdAt saved = now env
       \<and> saved \<in> set (messages (run (fst (send_message s sid md env)) es))
       \<and> (\<forall>r. m_room saved = Some r \<and> r \<noteq> []
              \<and> int (length (filter (\<lambda>m. m_room m = Some r \<and> m_createdAt saved \<le> m_createdAt m)
                          (messages (run (fst (send_message s sid md env)) es))))
                  \<le> effective_limit parsed
            \<longrightarrow> (\<exists>docs. api_messages (run (fst (send_message s sid md env)) es) parsed (Some r) True
                           = (Json docs, [])
                        \<and> saved \<in> set docs
                        \<and> m_id saved = p_id (public_projection saved)
                        \<and> m_createdAt saved = p_timestamp (public_projection saved)))"
proof -
  from Message_create_Inr [OF c]
  have sch: "MessageSchema env (public_draft s sid md) = Inr saved"
    and ms: "msgs = messages s @ [saved]" by simp_all
  have sm: "send_message s sid md env =
           (s\<lparr> messages := messages s @ [saved] \<rparr>,
            [Created saved, IoEmit (Receive_message (public_projection saved))])"
    using c ms by (simp add: send_message_def)
  have pr: "public_projection saved =
           \<lparr> p_id = m_id saved, p_sender = m_sender saved, p_senderId = m_senderId saved,
             p_message = m_text saved, p_room = m_room saved, p_isPrivate = m_isPrivate saved,
             p_timestamp = m_createdAt saved \<rparr>"
    by (simp add: public_projection_def)
  have ids: "m_id saved = fresh_id env \<and> m_createdAt saved = now env"
    using sch by (auto simp: MessageSchema_def split: sum.splits if_splits)
  let ?s2 = "run (fst (send_message s sid md env)) es"
  have "saved \<in> set (messages (fst (send_message s sid md env)))"
    by (simp add: sm)
  then have mem: "saved \<in> set (messages ?s2)" by (rule messages_run_mono)
  have q: "\<forall>r. m_room saved = Some r \<and> r \<noteq> []
              \<and> int (length (filter (\<lambda>m. m_room m = Some r \<and> m_createdAt saved \<le> m_createdAt m)
                          (messages ?s2))) \<le> effective_limit parsed
            \<longrightarrow> (\<exists>docs. api_messages ?s2 parsed (Some r) True = (Json docs, [])
                        \<and> saved \<in> set docs
                        \<and> m_id saved = p_id (public_projection saved)
                        \<and> m_createdAt saved = p_timestamp (public_projection saved))"
    using retrieved_when_among_newest [OF mem] by (simp add: pr)
  from sm pr ids mem q show ?thesis by blast
qed

theorem public_send_persisted_then_broadcast_witness:
  "Message_create env_up (public_draft alice_joined ''a'' hi_payload) (messages alice_joined)
     = Inr (alice_hi_doc, [alice_hi_doc])
   \<and> messages (run (fst (send_message alice_joined ''a'' hi_payload env_up))
                 [Ev_send_message ''a'' hi_payload env_later]) = [alice_hi_doc, alice_hi_doc2]
   \<and> effective_limit (Some 2) = 2
   \<and> (\<exists>docs. api_messages (run (fst (send_message alice_joined ''a'' hi_payload env_up))
                              [Ev_send_message ''a'' hi_payload env_later])
                (Some 2) (Some ''global'') True = (Json docs, [])
         \<and> alice_hi_doc \<in> set docs)
   \<and> snd (send_message alice_joined ''a'' hi_payload env_up)
       = [Created alice_hi_doc,
          IoEmit (Receive_message
            \<lparr> p_id = 1, p_sender = Some ''Alice'', p_senderId = Some ''a'', p_message = Some ''hi'',
              p_room = Some ''global'', p_isPrivate = False, p_timestamp = 1000 \<rparr>)]"
proof -
  let ?s2 = "run (fst (send_message alice_joined ''a'' hi_payload env_up))
                 [Ev_send_message ''a'' hi_payload env_later]"
  have c: "Message_create env_up (public_draft alice_joined ''a'' hi_payload) (messages alice_joined)
             = Inr (alice_hi_doc, [alice_hi_doc])"
    by (simp add: eval_defs)
  have m: "messages ?s2 = [alice_hi_doc, alice_hi_doc2]"
    by (simp add: eval_defs)
  have l: "effective_limit (Some 2) = 2" by (simp add: effective_limit_def)
  have p: "m_room alice_hi_doc = Some ''global'' \<and> ''global'' \<noteq> []
           \<and> int (length (filter (\<lambda>m. m_room m = Some ''global''
                                     \<and> m_createdAt alice_hi_doc \<le> m_createdAt m) (messages ?s2)))
               \<le> effective_limit (Some 2)"
    by (simp only: m l) (simp add: alice_hi_doc_def alice_hi_doc2_def)
  have e: "snd (send_message alice_joined ''a'' hi_payload env_up)
       = [Created alice_hi_doc,
          IoEmit (Receive_message
            \<lparr> p_id = 1, p_sender = Some ''Alice'', p_senderId = Some ''a'', p_message = Some ''hi'',
              p_room = Some ''global'', p_isPrivate = False, p_timestamp = 1000 \<rparr>)]"
    by (simp add: eval_defs)
  note T = public_send_persisted_then_broadcast
             [OF c, of "[Ev_send_message ''a'' hi_payload env_later]" "Some 2"]
  from T p have q: "\<exists>docs. api_messages ?s2 (Some 2) (Some ''global'') True = (Json docs, [])
         \<and> alice_hi_doc \<in> set docs"
    by blast
  from c m l q e show ?thesis by blast
qed

end
